theory Spec2Isabelle
  imports Main "HOL-Library.Sublist"
begin

section \<open>JavaScript strings\<close>

text \<open>
  A JavaScript string is a sequence of UTF-16 code units. The regular expressions of
  \<^verbatim>\<open>script.js\<close> carry no \<^verbatim>\<open>u\<close> flag, so they too work on code units. A code unit is
  modelled by its number; \<open>js\<close> turns an ASCII literal of the source into such a string.
\<close>

type_synonym code_unit = nat
type_synonym jsstring = "code_unit list"

definition js :: "string \<Rightarrow> jsstring" where
  "js s = map of_char s"

text \<open>
  \<^verbatim>\<open>String.prototype.trim\<close> strips the code points of WhiteSpace and LineTerminator; the
  class escape \<^verbatim>\<open>\s\<close> of a regular expression matches exactly the same set.
\<close>

definition is_space :: "code_unit \<Rightarrow> bool" where
  "is_space c \<longleftrightarrow>
     c \<in> set [9, 10, 11, 12, 13, 32, 160, 5760, 8232, 8233, 8239, 8287, 12288, 65279]
     \<or> (8192 \<le> c \<and> c \<le> 8202)"

definition trim :: "jsstring \<Rightarrow> jsstring" where
  "trim s = rev (dropWhile is_space (rev (dropWhile is_space s)))"

section \<open>The two regular expressions of validateField\<close>

text \<open>
  Both patterns are a start anchor, a sequence of quantified one-character atoms and an
  end anchor. The syntax below covers what they use: a literal character, \<^verbatim>\<open>\d\<close>, a
  character class \<^verbatim>\<open>[...]\<close> or \<^verbatim>\<open>[^...]\<close> of literals, ranges and \<^verbatim>\<open>\s\<close>, and the
  quantifiers "once", \<^verbatim>\<open>+\<close> and \<^verbatim>\<open>{n}\<close>.
\<close>

datatype class_item = CChar code_unit | CRange code_unit code_unit | CSpace

datatype atom = Lit code_unit | Digit | OneOf "class_item list" | NoneOf "class_item list"

datatype quantifier = Once | OneOrMore | Times nat

type_synonym pattern = "(atom \<times> quantifier) list"

fun item_has :: "class_item \<Rightarrow> code_unit \<Rightarrow> bool" where
  "item_has (CChar x) c = (c = x)"
| "item_has (CRange lo hi) c = (lo \<le> c \<and> c \<le> hi)"
| "item_has CSpace c = is_space c"

fun accepts :: "atom \<Rightarrow> code_unit \<Rightarrow> bool" where
  "accepts (Lit x) c = (c = x)"
| "accepts Digit c = (48 \<le> c \<and> c \<le> 57)"
| "accepts (OneOf items) c = list_ex (\<lambda>i. item_has i c) items"
| "accepts (NoneOf items) c = (\<not> list_ex (\<lambda>i. item_has i c) items)"

text \<open>
  The backtracking matcher. It starts at the first code unit only (the anchor \<^verbatim>\<open>^\<close>) and
  succeeds only when pattern and input end together (the anchor \<^verbatim>\<open>$\<close>; neither pattern has
  the \<^verbatim>\<open>m\<close> flag). \<^verbatim>\<open>+\<close> is greedy: it first tries to take one more character and falls
  back to the rest of the pattern.
\<close>

fun match_here :: "pattern \<Rightarrow> jsstring \<Rightarrow> bool" where
  "match_here [] s = (s = [])"
| "match_here ((a, Once) # ps) [] = False"
| "match_here ((a, Once) # ps) (c # cs) = (accepts a c \<and> match_here ps cs)"
| "match_here ((a, Times 0) # ps) s = match_here ps s"
| "match_here ((a, Times (Suc n)) # ps) [] = False"
| "match_here ((a, Times (Suc n)) # ps) (c # cs) =
     (accepts a c \<and> match_here ((a, Times n) # ps) cs)"
| "match_here ((a, OneOrMore) # ps) [] = False"
| "match_here ((a, OneOrMore) # ps) (c # cs) =
     (accepts a c \<and> (match_here ((a, OneOrMore) # ps) cs \<or> match_here ps cs))"

definition regex_test :: "pattern \<Rightarrow> jsstring \<Rightarrow> bool" where
  "regex_test p s = match_here p s"

text \<open>\<^verbatim>\<open>/^[^\s@]+@[^\s@]+\.[^\s@]+$/\<close>\<close>

definition email_regex :: pattern where
  "email_regex =
     [(NoneOf [CSpace, CChar (of_char CHR ''@'')], OneOrMore),
      (Lit (of_char CHR ''@''), Once),
      (NoneOf [CSpace, CChar (of_char CHR ''@'')], OneOrMore),
      (Lit (of_char CHR ''.''), Once),
      (NoneOf [CSpace, CChar (of_char CHR ''@'')], OneOrMore)]"

text \<open>\<^verbatim>\<open>/^[6-9]\d{9}$/\<close>\<close>

definition phone_regex :: pattern where
  "phone_regex =
     [(OneOf [CRange (of_char CHR ''6'') (of_char CHR ''9'')], Once),
      (Digit, Times 9)]"

section \<open>The application form: data\<close>

text \<open>
  A form control as \<open>validateField\<close> and \<open>form.reset()\<close> see it: its \<^verbatim>\<open>name\<close>, its current
  \<^verbatim>\<open>value\<close>, whether it has the \<^verbatim>\<open>required\<close> attribute, the value that the form's reset
  restores (the markup's default; for a radio button or checkbox the \<^verbatim>\<open>value\<close> itself, which
  a reset never touches), and its parent element, whose class list carries the validity
  marker. A control of a form always has a parent element. Several controls may share one
  parent, so class lists live in a store indexed by element.
\<close>

type_synonym elem = nat

record field =
  fname :: jsstring
  fvalue :: jsstring
  frequired :: bool
  fdefault :: jsstring
  fparent :: elem

datatype ntype = Success | Error | Info

datatype node = Notification ntype jsstring jsstring | Loader jsstring

text \<open>An element that the script appended to \<^verbatim>\<open>document.body\<close>; \<open>cshow\<close> tells whether its
  class list holds \<^verbatim>\<open>show\<close>.\<close>

record child =
  cid :: elem
  cnode :: node
  cshow :: bool

text \<open>
  The callbacks the script schedules: with \<^verbatim>\<open>requestAnimationFrame\<close> (\<open>NextFrame\<close>) or with
  \<^verbatim>\<open>setTimeout\<close> (\<open>Ms\<close>). \<open>ResumeSubmit\<close> is the rest of \<open>submitApplication\<close> behind its
  \<^verbatim>\<open>await\<close>.
\<close>

datatype task =
    AddShow elem
  | AutoClose elem
  | Detach elem
  | ResumeSubmit elem
  | ActivateModal
  | FocusFirstInput
  | FinishClose

datatype delay = NextFrame | Ms nat

record modal_el =
  mdisplay :: string
  mactive :: bool
  mhasInput :: bool
  mhasForm :: bool

text \<open>
  The part of the document the form flow reads and writes. \<open>modal\<close> is the result of
  \<^verbatim>\<open>document.getElementById('applicationModal')\<close>, \<open>None\<close> for \<^verbatim>\<open>null\<close>. \<open>formFields\<close> are
  the controls of \<^verbatim>\<open>#applicationForm\<close> in document order, \<open>formGroups\<close> its \<^verbatim>\<open>.form-group\<close>
  elements. \<open>analytics\<close> is the console log of \<open>trackEvent\<close>.
\<close>

record app =
  formFields :: "field list"
  formGroups :: "elem list"
  classList :: "elem \<Rightarrow> string list"
  body :: "child list"
  timers :: "(delay \<times> task) list"
  nextId :: elem
  modal :: "modal_el option"
  bodyOverflow :: string
  firstInputFocused :: bool
  analytics :: "(jsstring \<times> jsstring) list"

datatype js_error = TypeError


section \<open>Class lists\<close>

definition classList_remove :: "string list \<Rightarrow> string list \<Rightarrow> string list" where
  "classList_remove tokens cl = filter (\<lambda>c. c \<notin> set tokens) cl"

definition classList_add :: "string \<Rightarrow> string list \<Rightarrow> string list" where
  "classList_add token cl = (if token \<in> set cl then cl else cl @ [token])"


section \<open>validateField\<close>

text \<open>
  \<^verbatim>\<open>validateField(field)\<close>, lines 224 to 249. \<open>classify\<close> is the value of \<^verbatim>\<open>isValid\<close> at the
  \<^verbatim>\<open>return\<close>; \<open>validateField\<close> returns it with the document after the two class-list updates
  on \<^verbatim>\<open>field.parentElement\<close>.
\<close>

definition classify :: "field \<Rightarrow> bool" where
  "classify field =
     (let v = trim (fvalue field) in
      if frequired field \<and> v = [] then False
      else if v \<noteq> [] then
        (if fname field = js ''email'' then regex_test email_regex v
         else if fname field = js ''phone'' then regex_test phone_regex v
         else True)
      else True)"

definition validateField :: "field \<Rightarrow> app \<Rightarrow> bool \<times> app" where
  "validateField field s =
     (let v = trim (fvalue field);
          p = fparent field;
          isValid = classify field;
          cl1 = classList_remove [''error'', ''success''] (classList s p);
          cl2 = (if v \<noteq> [] then classList_add (if isValid then ''success'' else ''error'') cl1
                 else cl1)
      in (isValid, s\<lparr>classList := (classList s)(p := cl2)\<rparr>))"

section \<open>Display names\<close>

text \<open>
  \<^verbatim>\<open>getFieldDisplayName\<close>, lines 267 to 276, reads \<^verbatim>\<open>displayNames[fieldName]\<close>. \<^verbatim>\<open>displayNames\<close>
  is an object literal, so the read also finds what the object inherits from
  \<^verbatim>\<open>Object.prototype\<close>: its built-in methods, and the prototype itself under \<^verbatim>\<open>__proto__\<close>.
  These values are truthy, so \<^verbatim>\<open>||\<close> keeps them, and the template literal of
  \<open>validateBusinessForm\<close> turns them into text.
\<close>

datatype jsval = JString jsstring | JNative jsstring | JObjectPrototype

definition displayNames :: "(jsstring \<times> jsstring) list" where
  "displayNames =
     [(js ''firstName'', js ''First Name''),
      (js ''lastName'', js ''Last Name''),
      (js ''email'', js ''Email Address''),
      (js ''phone'', js ''Phone Number''),
      (js ''address'', js ''Address'')]"

definition object_prototype :: "(jsstring \<times> jsval) list" where
  "object_prototype =
     [(js ''constructor'', JNative (js ''Object'')),
      (js ''toString'', JNative (js ''toString'')),
      (js ''toLocaleString'', JNative (js ''toLocaleString'')),
      (js ''valueOf'', JNative (js ''valueOf'')),
      (js ''hasOwnProperty'', JNative (js ''hasOwnProperty'')),
      (js ''isPrototypeOf'', JNative (js ''isPrototypeOf'')),
      (js ''propertyIsEnumerable'', JNative (js ''propertyIsEnumerable'')),
      (js ''__defineGetter__'', JNative (js ''__defineGetter__'')),
      (js ''__defineSetter__'', JNative (js ''__defineSetter__'')),
      (js ''__lookupGetter__'', JNative (js ''__lookupGetter__'')),
      (js ''__lookupSetter__'', JNative (js ''__lookupSetter__'')),
      (js ''__proto__'', JObjectPrototype)]"

definition property_get :: "(jsstring \<times> jsstring) list \<Rightarrow> jsstring \<Rightarrow> jsval option" where
  "property_get obj k =
     (case map_of obj k of
        Some v \<Rightarrow> Some (JString v)
      | None \<Rightarrow> map_of object_prototype k)"

fun truthy :: "jsval \<Rightarrow> bool" where
  "truthy (JString v) = (v \<noteq> [])"
| "truthy (JNative f) = True"
| "truthy JObjectPrototype = True"

fun to_string :: "jsval \<Rightarrow> jsstring" where
  "to_string (JString v) = v"
| "to_string (JNative f) = js ''function '' @ f @ js ''() { [native code] }''"
| "to_string JObjectPrototype = js ''[object Object]''"

definition getFieldDisplayName :: "jsstring \<Rightarrow> jsval" where
  "getFieldDisplayName fieldName =
     (case property_get displayNames fieldName of
        Some v \<Rightarrow> if truthy v then v else JString fieldName
      | None \<Rightarrow> JString fieldName)"

definition error_message :: "field \<Rightarrow> jsstring" where
  "error_message f = to_string (getFieldDisplayName (fname f)) @ js '' is required or invalid.''"

section \<open>Notifications and the loader\<close>

definition trackEvent :: "jsstring \<Rightarrow> jsstring \<Rightarrow> app \<Rightarrow> app" where
  "trackEvent action label s = s\<lparr>analytics := analytics s @ [(action, label)]\<rparr>"

definition set_show :: "elem \<Rightarrow> bool \<Rightarrow> child list \<Rightarrow> child list" where
  "set_show n b cs = map (\<lambda>c. if cid c = n then c\<lparr>cshow := b\<rparr> else c) cs"

definition showNotification :: "ntype \<Rightarrow> jsstring \<Rightarrow> jsstring \<Rightarrow> nat \<Rightarrow> app \<Rightarrow> elem \<times> app" where
  "showNotification t title message duration s =
     (let n = nextId s in
      (n, s\<lparr>body := body s @ [\<lparr>cid = n, cnode = Notification t title message, cshow = False\<rparr>],
            timers := timers s @ [(Ms duration, AutoClose n), (NextFrame, AddShow n)],
            nextId := Suc n\<rparr>))"

definition closeNotification :: "elem \<Rightarrow> app \<Rightarrow> app" where
  "closeNotification n s =
     s\<lparr>body := set_show n False (body s), timers := timers s @ [(Ms 300, Detach n)]\<rparr>"

definition showLoader :: "jsstring \<Rightarrow> app \<Rightarrow> elem \<times> app" where
  "showLoader message s =
     (let l = nextId s in
      (l, s\<lparr>body := body s @ [\<lparr>cid = l, cnode = Loader message, cshow = False\<rparr>],
            timers := timers s @ [(NextFrame, AddShow l)],
            nextId := Suc l\<rparr>))"

definition hideLoader :: "elem \<Rightarrow> app \<Rightarrow> app" where
  "hideLoader l s =
     s\<lparr>body := set_show l False (body s), timers := timers s @ [(Ms 300, Detach l)]\<rparr>"

section \<open>Validating and submitting the form\<close>

text \<open>
  \<open>validateBusinessForm\<close>, lines 251 to 265: the \<^verbatim>\<open>forEach\<close> over the \<^verbatim>\<open>[required]\<close> controls,
  with \<^verbatim>\<open>isValid\<close>, \<^verbatim>\<open>errors\<close> and the document as the loop's state.
\<close>

fun forEach_required :: "field list \<Rightarrow> bool \<times> jsstring list \<times> app \<Rightarrow> bool \<times> jsstring list \<times> app" where
  "forEach_required [] acc = acc"
| "forEach_required (f # fs) (isValid, errors, s) =
     (case validateField f s of
        (True, s') \<Rightarrow> forEach_required fs (isValid, errors, s')
      | (False, s') \<Rightarrow> forEach_required fs (False, errors @ [error_message f], s'))"

definition validateBusinessForm :: "app \<Rightarrow> bool \<times> jsstring list \<times> app" where
  "validateBusinessForm s = forEach_required (filter frequired (formFields s)) (True, [], s)"

fun join :: "jsstring \<Rightarrow> jsstring list \<Rightarrow> jsstring" where
  "join sep [] = []"
| "join sep [x] = x"
| "join sep (x # y # ys) = x @ sep @ join sep (y # ys)"

definition form_reset :: "app \<Rightarrow> app" where
  "form_reset s = s\<lparr>formFields := map (\<lambda>f. f\<lparr>fvalue := fdefault f\<rparr>) (formFields s)\<rparr>"

definition clear_groups :: "app \<Rightarrow> app" where
  "clear_groups s =
     s\<lparr>classList := (\<lambda>e. if e \<in> set (formGroups s)
                          then classList_remove [''focused'', ''success'', ''error''] (classList s e)
                          else classList s e)\<rparr>"

text \<open>
  \<open>submitApplication\<close>, lines 201 to 222, up to its \<^verbatim>\<open>await\<close>, and \<open>resumeSubmit\<close>, the rest
  of its \<^verbatim>\<open>try\<close> block, which the 2000 ms timer starts. The awaited promise is never
  rejected, so the \<^verbatim>\<open>catch\<close> block does not run.
\<close>

definition submitApplication :: "app \<Rightarrow> app" where
  "submitApplication s =
     (case showLoader (js ''Processing your application...'') s of
        (loader, s1) \<Rightarrow> s1\<lparr>timers := timers s1 @ [(Ms 2000, ResumeSubmit loader)]\<rparr>)"

definition resumeSubmit :: "elem \<Rightarrow> app \<Rightarrow> app" where
  "resumeSubmit loader s =
     clear_groups (form_reset (snd (showNotification Success
       (js ''Application Submitted Successfully!'')
       (js ''Our recruitment team will contact you within 24 hours.'') 4000
       (hideLoader loader s))))"

definition handleFormSubmit :: "app \<Rightarrow> app" where
  "handleFormSubmit s =
     (case validateBusinessForm s of
        (isValid, errors, s1) \<Rightarrow>
          if isValid then submitApplication s1
          else snd (showNotification Error (js ''Application Incomplete'')
                      (join (js '' '') errors) 4000 s1))"

section \<open>The modal\<close>

definition openModal :: "app \<Rightarrow> app" where
  "openModal s =
     (case modal s of
        None \<Rightarrow> s
      | Some m \<Rightarrow>
          s\<lparr>modal := Some (m\<lparr>mdisplay := ''block''\<rparr>),
            timers := timers s @ [(NextFrame, ActivateModal)]
                        @ (if mhasInput m then [(Ms 300, FocusFirstInput)] else []),
            bodyOverflow := ''hidden''\<rparr>)"

definition closeModal :: "app \<Rightarrow> app" where
  "closeModal s =
     (case modal s of
        None \<Rightarrow> s
      | Some m \<Rightarrow>
          s\<lparr>modal := Some (m\<lparr>mactive := False\<rparr>),
            timers := timers s @ [(Ms 300, FinishClose)]\<rparr>)"

definition finishClose :: "app \<Rightarrow> app" where
  "finishClose s =
     (case modal s of
        None \<Rightarrow> s
      | Some m \<Rightarrow>
          (let s1 = s\<lparr>modal := Some (m\<lparr>mdisplay := ''none''\<rparr>), bodyOverflow := []\<rparr>
           in if mhasForm m then clear_groups s1 else s1))"

text \<open>
  The listeners of \<open>setupBusinessTracking\<close>, lines 387 to 428. The \<^verbatim>\<open>keydown\<close> listener reads
  \<^verbatim>\<open>.style\<close> of what \<^verbatim>\<open>getElementById\<close> returns, with no check; the overlay listener is
  attached through \<^verbatim>\<open>?.\<close>, so it exists only when the modal does.
\<close>

definition keydown :: "jsstring \<Rightarrow> app \<Rightarrow> js_error + app" where
  "keydown key s =
     (if key = js ''Escape'' then
        (case modal s of
           None \<Rightarrow> Inl TypeError
         | Some m \<Rightarrow> if mdisplay m \<noteq> ''none'' then Inr (closeModal s) else Inr s)
      else Inr s)"

definition overlay_click :: "bool \<Rightarrow> app \<Rightarrow> app" where
  "overlay_click on_overlay s =
     (case modal s of
        None \<Rightarrow> s
      | Some m \<Rightarrow> if on_overlay then closeModal s else s)"

text \<open>
  The document's \<^verbatim>\<open>click\<close> listener, for a target whose closest \<^verbatim>\<open>[data-action]\<close> ancestor
  carries \<open>action\<close> (\<open>None\<close> when there is none), that lies inside \<^verbatim>\<open>.submit-button\<close> or not,
  and that lies inside a \<^verbatim>\<open>.logo-container\<close> or not: \<open>logo\<close> is \<open>None\<close> outside one, and
  otherwise the text of the container's \<^verbatim>\<open>.brand-name\<close> element, if it has one.
\<close>

definition click :: "string option \<Rightarrow> bool \<Rightarrow> jsstring option option \<Rightarrow> app \<Rightarrow> app" where
  "click action in_submit logo s =
     (let s1 = (if action = Some ''open-modal''
                  then trackEvent (js ''modal_open'') (js ''application_form'') (openModal s)
                else if action = Some ''close-modal''
                  then trackEvent (js ''modal_close'') (js ''application_form'') (closeModal s)
                else s);
          s2 = (if in_submit
                  then trackEvent (js ''form_submit_attempt'') (js ''application_form'') s1
                else s1)
      in case logo of
           None \<Rightarrow> s2
         | Some brand \<Rightarrow>
             trackEvent (js ''partner_logo_click'')
               (case brand of
                  None \<Rightarrow> js ''unknown''
                | Some t \<Rightarrow> if t \<noteq> [] then t else js ''unknown'') s2)"

section \<open>Scheduled callbacks\<close>

fun fire :: "task \<Rightarrow> app \<Rightarrow> app" where
  "fire (AddShow n) s = s\<lparr>body := set_show n True (body s)\<rparr>"
| "fire (AutoClose n) s = (if n \<in> cid ` set (body s) then closeNotification n s else s)"
| "fire (Detach n) s = s\<lparr>body := filter (\<lambda>c. cid c \<noteq> n) (body s)\<rparr>"
| "fire (ResumeSubmit l) s = resumeSubmit l s"
| "fire ActivateModal s = s\<lparr>modal := map_option (\<lambda>m. m\<lparr>mactive := True\<rparr>) (modal s)\<rparr>"
| "fire FocusFirstInput s = s\<lparr>firstInputFocused := True\<rparr>"
| "fire FinishClose s = finishClose s"

text \<open>
  One step of the event loop runs one pending callback and drops it from the list. Which
  one is left open: the model keeps each callback's delay but no clock, so every order of
  the pending callbacks is a run.
\<close>

definition run_timer :: "nat \<Rightarrow> app \<Rightarrow> app" where
  "run_timer i s =
     fire (snd (timers s ! i)) (s\<lparr>timers := take i (timers s) @ drop (Suc i) (timers s)\<rparr>)"

inductive step :: "app \<Rightarrow> app \<Rightarrow> bool" where
  run: "i < length (timers s) \<Longrightarrow> step s (run_timer i s)"

definition is_loader :: "child \<Rightarrow> bool" where
  "is_loader c = (case cnode c of Loader m \<Rightarrow> True | Notification t a b \<Rightarrow> False)"

definition loaders :: "app \<Rightarrow> child list" where
  "loaders s = filter is_loader (body s)"

definition notifications :: "app \<Rightarrow> child list" where
  "notifications s = filter (\<lambda>c. \<not> is_loader c) (body s)"

text \<open>The submissions in flight: the pending continuations of \<open>submitApplication\<close>.\<close>

fun resumes :: "task \<Rightarrow> elem list" where
  "resumes (ResumeSubmit l) = [l]"
| "resumes t = []"

definition in_flight :: "app \<Rightarrow> elem list" where
  "in_flight s = concat (map (\<lambda>dt. resumes (snd dt)) (timers s))"

section \<open>The language manager: data\<close>







section \<open>String search and replacement\<close>












section \<open>The language manager: operations\<close>














section \<open>The shapes the specification names\<close>

text \<open>
  The specification's words for a well-formed e-mail address: a non-empty local part,
  \<^verbatim>\<open>@\<close>, a non-empty domain, a dot, a non-empty top-level part, with no white space and no
  further \<^verbatim>\<open>@\<close> in any part.
\<close>

definition email_shape :: "jsstring \<Rightarrow> bool" where
  "email_shape v \<longleftrightarrow>
     (\<exists>local domain tld.
        v = local @ [of_char CHR ''@''] @ domain @ [of_char CHR ''.''] @ tld
        \<and> local \<noteq> [] \<and> domain \<noteq> [] \<and> tld \<noteq> []
        \<and> (\<forall>c \<in> set (local @ domain @ tld). \<not> is_space c \<and> c \<noteq> of_char CHR ''@''))"

text \<open>The specification's words for a phone number: exactly ten digits, the first one of 6, 7,
  8, 9.\<close>

definition is_digit :: "code_unit \<Rightarrow> bool" where
  "is_digit c \<longleftrightarrow> of_char CHR ''0'' \<le> c \<and> c \<le> of_char CHR ''9''"

definition phone_shape :: "jsstring \<Rightarrow> bool" where
  "phone_shape v \<longleftrightarrow>
     length v = 10 \<and> list_all is_digit v
     \<and> (case v of [] \<Rightarrow> False | c # cs \<Rightarrow> of_char CHR ''6'' \<le> c \<and> c \<le> of_char CHR ''9'')"

section \<open>What the form looks like to a submit attempt\<close>

text \<open>The required controls that \<open>validateField\<close> classifies Invalid, in document order, and
  whether there is none.\<close>

definition invalid_required :: "app \<Rightarrow> field list" where
  "invalid_required s = filter (\<lambda>f. \<not> classify f) (filter frequired (formFields s))"

definition form_valid :: "app \<Rightarrow> bool" where
  "form_valid s = list_all classify (filter frequired (formFields s))"

text \<open>The document after \<open>validateField\<close> has run on each of \<open>fs\<close> in turn.\<close>

definition validated :: "field list \<Rightarrow> app \<Rightarrow> app" where
  "validated fs s = fold (\<lambda>f t. snd (validateField f t)) fs s"

section \<open>Example inputs\<close>

text \<open>A document with no form controls, no modal and nothing scheduled, used to state closed
  examples.\<close>

definition blank_app :: app where
  "blank_app =
     \<lparr>formFields = [], formGroups = [], classList = (\<lambda>e. []), body = [], timers = [],
      nextId = 0, modal = None, bodyOverflow = [], firstInputFocused = False, analytics = []\<rparr>"

text \<open>A form whose one control is required, empty and named \<^verbatim>\<open>constructor\<close>.\<close>

definition constructor_form :: app where
  "constructor_form =
     blank_app\<lparr>formFields := [\<lparr>fname = js ''constructor'', fvalue = [], frequired = True,
                                 fdefault = [], fparent = 11\<rparr>],
               formGroups := [11], nextId := 20\<rparr>"

text \<open>A form with an empty required e-mail field and an empty required field named
  \<^verbatim>\<open>city\<close>, for which no display name is registered.\<close>

definition blank_email_form :: app where
  "blank_email_form =
     blank_app\<lparr>formFields := [\<lparr>fname = js ''email'', fvalue = [], frequired = True,
                                 fdefault = [], fparent = 11\<rparr>,
                               \<lparr>fname = js ''city'', fvalue = [], frequired = True,
                                 fdefault = [], fparent = 12\<rparr>],
               formGroups := [11, 12], nextId := 20\<rparr>"

text \<open>A filled form: a required name, a required e-mail address, and a radio button, which
  keeps its value \<^verbatim>\<open>fresher\<close> when the form is reset.\<close>

definition filled_form :: app where
  "filled_form =
     blank_app\<lparr>formFields := [\<lparr>fname = js ''firstName'', fvalue = js ''Asha'', frequired = True,
                                 fdefault = [], fparent = 11\<rparr>,
                               \<lparr>fname = js ''email'', fvalue = js ''a@b.c'', frequired = True,
                                 fdefault = [], fparent = 12\<rparr>,
                               \<lparr>fname = js ''experience'', fvalue = js ''fresher'', frequired = False,
                                 fdefault = js ''fresher'', fparent = 13\<rparr>],
               formGroups := [11, 12, 13], nextId := 20\<rparr>"




section \<open>Trimming and matching\<close>

lemma trim_Nil: "trim [] = []"
  by (simp add: trim_def)

lemma trim_empty_iff: "trim s = [] \<longleftrightarrow> (\<forall>c \<in> set s. is_space c)"
proof -
  have "set s = set (takeWhile is_space s) \<union> set (dropWhile is_space s)"
    by (metis set_append takeWhile_dropWhile_id)
  then show ?thesis
    by (auto simp: trim_def dest: set_takeWhileD set_dropWhileD)
qed

lemma once_iff:
  "match_here ((a, Once) # ps) s \<longleftrightarrow> (\<exists>c v. s = c # v \<and> accepts a c \<and> match_here ps v)"
  by (cases s) auto

lemma plus_iff:
  "match_here ((a, OneOrMore) # ps) s \<longleftrightarrow>
     (\<exists>u v. u \<noteq> [] \<and> s = u @ v \<and> list_all (accepts a) u \<and> match_here ps v)"
proof (induction s)
  case Nil
  then show ?case by simp
next
  case (Cons c cs)
  show ?case
  proof
    assume "match_here ((a, OneOrMore) # ps) (c # cs)"
    then have c: "accepts a c" and rest: "match_here ((a, OneOrMore) # ps) cs \<or> match_here ps cs"
      by auto
    from rest show "\<exists>u v. u \<noteq> [] \<and> c # cs = u @ v \<and> list_all (accepts a) u \<and> match_here ps v"
    proof
      assume "match_here ((a, OneOrMore) # ps) cs"
      with Cons.IH obtain u v where "u \<noteq> []" "cs = u @ v" "list_all (accepts a) u" "match_here ps v"
        by blast
      with c have "c # u \<noteq> [] \<and> c # cs = (c # u) @ v \<and> list_all (accepts a) (c # u) \<and> match_here ps v"
        by simp
      then show ?thesis by blast
    next
      assume "match_here ps cs"
      with c have "[c] \<noteq> [] \<and> c # cs = [c] @ cs \<and> list_all (accepts a) [c] \<and> match_here ps cs"
        by simp
      then show ?thesis by blast
    qed
  next
    assume "\<exists>u v. u \<noteq> [] \<and> c # cs = u @ v \<and> list_all (accepts a) u \<and> match_here ps v"
    then obtain u v where u: "u \<noteq> []" "c # cs = u @ v" "list_all (accepts a) u" "match_here ps v"
      by blast
    then obtain u' where u': "u = c # u'" by (cases u) auto
    with u have c: "accepts a c" and cs: "cs = u' @ v" and all: "list_all (accepts a) u'" by auto
    show "match_here ((a, OneOrMore) # ps) (c # cs)"
    proof (cases "u' = []")
      case True
      with cs u c show ?thesis by simp
    next
      case False
      with cs all u have "match_here ((a, OneOrMore) # ps) cs"
        using Cons.IH by blast
      with c show ?thesis by simp
    qed
  qed
qed

lemma times_iff:
  "match_here ((a, Times n) # ps) s \<longleftrightarrow>
     (\<exists>u v. length u = n \<and> s = u @ v \<and> list_all (accepts a) u \<and> match_here ps v)"
proof (induction n arbitrary: s)
  case 0
  then show ?case by simp
next
  case (Suc n)
  show ?case
  proof (cases s)
    case Nil
    then show ?thesis by simp
  next
    case (Cons c cs)
    have "match_here ((a, Times (Suc n)) # ps) (c # cs) \<longleftrightarrow>
            accepts a c \<and> (\<exists>u v. length u = n \<and> cs = u @ v \<and> list_all (accepts a) u \<and> match_here ps v)"
      using Suc.IH by simp
    also have "\<dots> \<longleftrightarrow> (\<exists>u v. length u = Suc n \<and> c # cs = u @ v \<and> list_all (accepts a) u \<and> match_here ps v)"
    proof
      assume "accepts a c \<and> (\<exists>u v. length u = n \<and> cs = u @ v \<and> list_all (accepts a) u \<and> match_here ps v)"
      then obtain u v where "accepts a c" "length u = n" "cs = u @ v" "list_all (accepts a) u" "match_here ps v"
        by blast
      then have "length (c # u) = Suc n \<and> c # cs = (c # u) @ v \<and> list_all (accepts a) (c # u) \<and> match_here ps v"
        by simp
      then show "\<exists>u v. length u = Suc n \<and> c # cs = u @ v \<and> list_all (accepts a) u \<and> match_here ps v"
        by blast
    next
      assume "\<exists>u v. length u = Suc n \<and> c # cs = u @ v \<and> list_all (accepts a) u \<and> match_here ps v"
      then obtain u v where u: "length u = Suc n" "c # cs = u @ v" "list_all (accepts a) u" "match_here ps v"
        by blast
      then obtain u' where "u = c # u'" by (cases u) auto
      with u show "accepts a c \<and> (\<exists>u v. length u = n \<and> cs = u @ v \<and> list_all (accepts a) u \<and> match_here ps v)"
        by auto
    qed
    finally show ?thesis using Cons by simp
  qed
qed

lemma accepts_not_space_at:
  "accepts (NoneOf [CSpace, CChar (of_char CHR ''@'')]) c \<longleftrightarrow> \<not> is_space c \<and> c \<noteq> of_char CHR ''@''"
  by simp

lemma email_regex_iff: "regex_test email_regex v \<longleftrightarrow> email_shape v"
proof
  assume "regex_test email_regex v"
  then obtain l r1 where l: "l \<noteq> []" "v = l @ r1"
      "list_all (accepts (NoneOf [CSpace, CChar (of_char CHR ''@'')])) l"
    and r1: "match_here [(Lit (of_char CHR ''@''), Once),
      (NoneOf [CSpace, CChar (of_char CHR ''@'')], OneOrMore),
      (Lit (of_char CHR ''.''), Once),
      (NoneOf [CSpace, CChar (of_char CHR ''@'')], OneOrMore)] r1"
    unfolding regex_test_def email_regex_def plus_iff by blast
  from r1 obtain r2 where r2: "r1 = of_char CHR ''@'' # r2"
    and m2: "match_here [(NoneOf [CSpace, CChar (of_char CHR ''@'')], OneOrMore),
      (Lit (of_char CHR ''.''), Once),
      (NoneOf [CSpace, CChar (of_char CHR ''@'')], OneOrMore)] r2"
    unfolding once_iff by auto
  from m2 obtain d r3 where d: "d \<noteq> []" "r2 = d @ r3"
      "list_all (accepts (NoneOf [CSpace, CChar (of_char CHR ''@'')])) d"
    and m3: "match_here [(Lit (of_char CHR ''.''), Once),
      (NoneOf [CSpace, CChar (of_char CHR ''@'')], OneOrMore)] r3"
    unfolding plus_iff by blast
  from m3 obtain r4 where r4: "r3 = of_char CHR ''.'' # r4"
    and m4: "match_here [(NoneOf [CSpace, CChar (of_char CHR ''@'')], OneOrMore)] r4"
    unfolding once_iff by auto
  from m4 obtain t where t: "t \<noteq> []" "r4 = t"
      "list_all (accepts (NoneOf [CSpace, CChar (of_char CHR ''@'')])) t"
    unfolding plus_iff by auto
  have "v = l @ [of_char CHR ''@''] @ d @ [of_char CHR ''.''] @ t"
    using l r2 d r4 t by simp
  moreover have "\<forall>c \<in> set (l @ d @ t). \<not> is_space c \<and> c \<noteq> of_char CHR ''@''"
    using l(3) d(3) t(3) unfolding list_all_iff accepts_not_space_at by auto
  ultimately show "email_shape v"
    unfolding email_shape_def using l(1) d(1) t(1) by blast
next
  assume "email_shape v"
  then obtain l d t where v: "v = l @ [of_char CHR ''@''] @ d @ [of_char CHR ''.''] @ t"
    and ne: "l \<noteq> []" "d \<noteq> []" "t \<noteq> []"
    and ok: "\<forall>c \<in> set (l @ d @ t). \<not> is_space c \<and> c \<noteq> of_char CHR ''@''"
    unfolding email_shape_def by blast
  let ?a = "NoneOf [CSpace, CChar (of_char CHR ''@'')]"
  from ok have all: "list_all (accepts ?a) l" "list_all (accepts ?a) d" "list_all (accepts ?a) t"
    unfolding list_all_iff accepts_not_space_at by auto
  have m4: "match_here [(?a, OneOrMore)] t"
    unfolding plus_iff using ne all by auto
  then have m3: "match_here [(Lit (of_char CHR ''.''), Once), (?a, OneOrMore)] (of_char CHR ''.'' # t)"
    by simp
  have m2: "match_here [(?a, OneOrMore), (Lit (of_char CHR ''.''), Once), (?a, OneOrMore)]
              (d @ of_char CHR ''.'' # t)"
    unfolding plus_iff [of ?a "[(Lit (of_char CHR ''.''), Once), (?a, OneOrMore)]"]
    using ne all m3 by blast
  then have m1: "match_here [(Lit (of_char CHR ''@''), Once), (?a, OneOrMore),
        (Lit (of_char CHR ''.''), Once), (?a, OneOrMore)] (of_char CHR ''@'' # d @ of_char CHR ''.'' # t)"
    by simp
  have "match_here email_regex (l @ of_char CHR ''@'' # d @ of_char CHR ''.'' # t)"
    unfolding email_regex_def
      plus_iff [of ?a "[(Lit (of_char CHR ''@''), Once), (?a, OneOrMore),
        (Lit (of_char CHR ''.''), Once), (?a, OneOrMore)]"]
    using ne all m1 by blast
  then show "regex_test email_regex v"
    unfolding regex_test_def v by simp
qed

lemma not_space_at_dot: "\<not> is_space (of_char CHR ''@'')" "\<not> is_space (of_char CHR ''.'')"
  by (simp_all add: is_space_def)

lemma email_shape_no_space: "email_shape v \<Longrightarrow> c \<in> set v \<Longrightarrow> \<not> is_space c"
  unfolding email_shape_def using not_space_at_dot by auto

lemma phone_regex_iff: "regex_test phone_regex v \<longleftrightarrow> phone_shape v"
proof
  assume "regex_test phone_regex v"
  then obtain c r where v: "v = c # r" and c: "accepts (OneOf [CRange (of_char CHR ''6'') (of_char CHR ''9'')]) c"
    and m: "match_here [(Digit, Times 9)] r"
    unfolding regex_test_def phone_regex_def once_iff by blast
  from m have r: "length r = 9" "list_all (accepts Digit) r"
    unfolding times_iff by auto
  from r(2) have "list_all is_digit r"
    by (simp add: list_all_iff is_digit_def)
  moreover from c have "is_digit c" "of_char CHR ''6'' \<le> c \<and> c \<le> of_char CHR ''9''"
    by (simp_all add: is_digit_def)
  ultimately show "phone_shape v"
    unfolding phone_shape_def using v r(1) by simp
next
  assume "phone_shape v"
  then obtain c r where v: "v = c # r" and c: "of_char CHR ''6'' \<le> c \<and> c \<le> of_char CHR ''9''"
    and r: "length r = 9" "list_all is_digit r"
    unfolding phone_shape_def by (cases v) auto
  from r have "list_all (accepts Digit) r"
    by (simp add: list_all_iff is_digit_def)
  with r have "length r = 9 \<and> r = r @ [] \<and> list_all (accepts Digit) r \<and> match_here [] []"
    by simp
  then have "match_here [(Digit, Times 9)] r"
    unfolding times_iff by blast
  with c show "regex_test phone_regex v"
    unfolding regex_test_def phone_regex_def v by simp
qed

lemma validateField_fst: "fst (validateField f s) = classify f"
  by (simp add: validateField_def Let_def)

lemma not_email_shape_Nil: "\<not> email_shape []"
  by (simp add: email_shape_def)

lemma trim_examples:
  "trim (js ''a@b.c'') = js ''a@b.c''"
  "trim (js '' a@b.c'') = js ''a@b.c''"
  "trim (js ''a@b'') = js ''a@b''"
  "trim (js ''notanemail'') = js ''notanemail''"
  "trim (js '' 9876543210'') = js ''9876543210''"
  by (simp_all add: trim_def js_def is_space_def)

lemma email_examples:
  "regex_test email_regex (js ''a@b.c'')"
  "\<not> regex_test email_regex (js ''a@b'')"
  "\<not> regex_test email_regex (js ''notanemail'')"
  "\<not> regex_test email_regex []"
  by (simp_all add: regex_test_def email_regex_def js_def is_space_def)

section \<open>Claims about validateField\<close>

text \<open>
  C1, as stated, speaks of the value itself. The code classifies the trimmed value, so a
  value with white space around a well-formed address is Valid although it does not have
  the shape: the counterexample is the value \<^verbatim>\<open>" a@b.c"\<close> with a leading space.
\<close>

theorem validateField_email_untrimmed:
  "fst (validateField \<lparr>fname = js ''email'', fvalue = js '' a@b.c'', frequired = True,
          fdefault = [], fparent = 0\<rparr> blank_app)
   \<and> \<not> email_shape (js '' a@b.c'')"
proof
  have "classify \<lparr>fname = js ''email'', fvalue = js '' a@b.c'', frequired = True,
          fdefault = [], fparent = 0\<rparr>"
    using email_examples(1) by (simp add: classify_def trim_examples) (simp add: js_def)
  then show "fst (validateField \<lparr>fname = js ''email'', fvalue = js '' a@b.c'', frequired = True,
          fdefault = [], fparent = 0\<rparr> blank_app)"
    by (simp add: validateField_fst)
next
  have "is_space 32" by (simp add: is_space_def)
  moreover have "32 \<in> set (js '' a@b.c'')" by (simp add: js_def)
  ultimately show "\<not> email_shape (js '' a@b.c'')"
    using email_shape_no_space by blast
qed

text \<open>
  C1, amended: for every field named \<^verbatim>\<open>email\<close> with the \<^verbatim>\<open>required\<close> attribute,
  \<open>validateField\<close> returns Valid if and only if the value, with leading and trailing white
  space trimmed, has the shape local@domain.tld (non-empty local part, \<^verbatim>\<open>@\<close>, non-empty
  domain, a dot, non-empty top-level part, no white space and no further \<^verbatim>\<open>@\<close>).
\<close>

theorem validateField_email:
  assumes "fname f = js ''email''" and "frequired f"
  shows "fst (validateField f s) \<longleftrightarrow> email_shape (trim (fvalue f))"
  using assms by (simp add: validateField_fst classify_def Let_def email_regex_iff not_email_shape_Nil)

text \<open>The theorem at the specification's four examples: \<^verbatim>\<open>"a@b.c"\<close> is Valid; the empty
  string, \<^verbatim>\<open>"a@b"\<close> and \<^verbatim>\<open>"notanemail"\<close> are Invalid.\<close>

theorem validateField_email_witness:
  "fst (validateField \<lparr>fname = js ''email'', fvalue = js ''a@b.c'', frequired = True,
          fdefault = [], fparent = 0\<rparr> blank_app)
   \<and> \<not> fst (validateField \<lparr>fname = js ''email'', fvalue = [], frequired = True,
          fdefault = [], fparent = 0\<rparr> blank_app)
   \<and> \<not> fst (validateField \<lparr>fname = js ''email'', fvalue = js ''a@b'', frequired = True,
          fdefault = [], fparent = 0\<rparr> blank_app)
   \<and> \<not> fst (validateField \<lparr>fname = js ''email'', fvalue = js ''notanemail'', frequired = True,
          fdefault = [], fparent = 0\<rparr> blank_app)"
  using validateField_email [of "\<lparr>fname = js ''email'', fvalue = js ''a@b.c'', frequired = True,
          fdefault = [], fparent = 0\<rparr>" blank_app]
    validateField_email [of "\<lparr>fname = js ''email'', fvalue = [], frequired = True,
          fdefault = [], fparent = 0\<rparr>" blank_app]
    validateField_email [of "\<lparr>fname = js ''email'', fvalue = js ''a@b'', frequired = True,
          fdefault = [], fparent = 0\<rparr>" blank_app]
    validateField_email [of "\<lparr>fname = js ''email'', fvalue = js ''notanemail'', frequired = True,
          fdefault = [], fparent = 0\<rparr>" blank_app]
    email_examples
  by (simp add: trim_examples trim_Nil not_email_shape_Nil flip: email_regex_iff)

lemma phone_examples:
  "regex_test phone_regex (js ''9876543210'')"
  "\<not> regex_test phone_regex (js ''5876543210'')"
  "\<not> regex_test phone_regex (js ''987654321'')"
  by (simp_all add: regex_test_def phone_regex_def js_def eval_nat_numeral)

lemma trim_phone_examples:
  "trim (js ''9876543210'') = js ''9876543210''"
  "trim (js ''5876543210'') = js ''5876543210''"
  "trim (js ''987654321'') = js ''987654321''"
  by (simp_all add: trim_def js_def is_space_def)

text \<open>
  C2, as stated, speaks of the value itself. The value \<^verbatim>\<open>" 9876543210"\<close>, a leading space and
  ten digits, is non-empty and eleven code units long, and it is classified Valid, because
  the code tests the trimmed value.
\<close>

theorem validateField_phone_untrimmed:
  "fst (validateField \<lparr>fname = js ''phone'', fvalue = js '' 9876543210'', frequired = True,
          fdefault = [], fparent = 0\<rparr> blank_app)
   \<and> js '' 9876543210'' \<noteq> []
   \<and> length (js '' 9876543210'') \<noteq> 10
   \<and> \<not> phone_shape (js '' 9876543210'')"
proof -
  have "classify \<lparr>fname = js ''phone'', fvalue = js '' 9876543210'', frequired = True,
          fdefault = [], fparent = 0\<rparr>"
    using phone_examples(1) by (simp add: classify_def trim_examples) (simp add: js_def)
  then show ?thesis
    by (simp add: validateField_fst) (simp add: js_def phone_shape_def)
qed

text \<open>
  C2, amended: for every field named \<^verbatim>\<open>phone\<close> whose value is non-empty after trimming,
  \<open>validateField\<close> returns Valid if and only if the trimmed value is exactly ten digits whose
  first digit is one of 6, 7, 8, 9. So a trimmed ten-digit value that starts with 0 to 5, and
  a non-empty trimmed value of any other length, is Invalid.
\<close>

theorem validateField_phone:
  assumes "fname f = js ''phone''" and "trim (fvalue f) \<noteq> []"
  shows "fst (validateField f s) \<longleftrightarrow> phone_shape (trim (fvalue f))"
proof -
  have "js ''phone'' \<noteq> js ''email''" by (simp add: js_def)
  with assms show ?thesis
    by (simp add: validateField_fst classify_def Let_def phone_regex_iff)
qed

text \<open>The theorem at a valid number, at ten digits starting with 5, and at nine digits.\<close>

theorem validateField_phone_witness:
  "fst (validateField \<lparr>fname = js ''phone'', fvalue = js ''9876543210'', frequired = False,
          fdefault = [], fparent = 0\<rparr> blank_app)
   \<and> \<not> fst (validateField \<lparr>fname = js ''phone'', fvalue = js ''5876543210'', frequired = False,
          fdefault = [], fparent = 0\<rparr> blank_app)
   \<and> \<not> fst (validateField \<lparr>fname = js ''phone'', fvalue = js ''987654321'', frequired = False,
          fdefault = [], fparent = 0\<rparr> blank_app)"
proof -
  have ne: "js ''9876543210'' \<noteq> []" "js ''5876543210'' \<noteq> []" "js ''987654321'' \<noteq> []"
    by (simp_all add: js_def)
  show ?thesis
    using validateField_phone [of "\<lparr>fname = js ''phone'', fvalue = js ''9876543210'',
            frequired = False, fdefault = [], fparent = 0\<rparr>" blank_app]
      validateField_phone [of "\<lparr>fname = js ''phone'', fvalue = js ''5876543210'',
            frequired = False, fdefault = [], fparent = 0\<rparr>" blank_app]
      validateField_phone [of "\<lparr>fname = js ''phone'', fvalue = js ''987654321'',
            frequired = False, fdefault = [], fparent = 0\<rparr>" blank_app]
      phone_examples ne
    by (simp add: trim_phone_examples flip: phone_regex_iff)
qed

text \<open>
  C10: for every field whose value consists only of white-space characters,
  \<open>validateField\<close> does exactly what it does for the empty value, in its result and in its
  effect on the document: Invalid when the field is required, Valid when it is not. No
  format rule is applied: the result does not depend on the field's name.
\<close>

theorem validateField_whitespace_only:
  assumes "\<forall>c \<in> set (fvalue f). is_space c"
  shows "validateField f s = validateField (f\<lparr>fvalue := []\<rparr>) s
         \<and> fst (validateField f s) = (\<not> frequired f)
         \<and> validateField (f\<lparr>fname := n\<rparr>) s = validateField f s"
proof -
  from assms have "trim (fvalue f) = []"
    by (simp add: trim_empty_iff)
  then show ?thesis
    by (simp add: validateField_def classify_def Let_def trim_Nil)
qed

text \<open>The theorem at a required e-mail field and at an optional phone field whose value is a
  space, a tab and a no-break space.\<close>

theorem validateField_whitespace_only_witness:
  "\<not> fst (validateField \<lparr>fname = js ''email'', fvalue = [32, 9, 160], frequired = True,
          fdefault = [], fparent = 0\<rparr> blank_app)
   \<and> fst (validateField \<lparr>fname = js ''phone'', fvalue = [32, 9, 160], frequired = False,
          fdefault = [], fparent = 0\<rparr> blank_app)"
proof -
  have sp1: "\<forall>c \<in> set (fvalue \<lparr>fname = js ''email'', fvalue = [32, 9, 160], frequired = True,
          fdefault = [], fparent = 0\<rparr>). is_space c"
    and sp2: "\<forall>c \<in> set (fvalue \<lparr>fname = js ''phone'', fvalue = [32, 9, 160], frequired = False,
          fdefault = [], fparent = 0\<rparr>). is_space c"
    by (simp_all add: is_space_def)
  show ?thesis
    using validateField_whitespace_only [OF sp1, THEN conjunct2, THEN conjunct1, of blank_app]
      validateField_whitespace_only [OF sp2, THEN conjunct2, THEN conjunct1, of blank_app]
    by simp
qed

text \<open>
  C6, as stated, says that \<open>validateField\<close> changes nothing. It does: validating a field with
  the value \<^verbatim>\<open>"Asha"\<close> on a pristine document leaves the class \<^verbatim>\<open>success\<close> on the field's
  parent element.
\<close>

theorem validateField_marks_parent:
  "classList (snd (validateField \<lparr>fname = js ''firstName'', fvalue = js ''Asha'',
       frequired = True, fdefault = [], fparent = 0\<rparr> blank_app)) 0 = [''success'']
   \<and> classList blank_app 0 = []
   \<and> snd (validateField \<lparr>fname = js ''firstName'', fvalue = js ''Asha'',
       frequired = True, fdefault = [], fparent = 0\<rparr> blank_app) \<noteq> blank_app"
proof -
  have t: "trim (js ''Asha'') = js ''Asha''"
    by (simp add: trim_def js_def is_space_def)
  have ne: "js ''Asha'' \<noteq> []" "js ''firstName'' \<noteq> js ''email''" "js ''firstName'' \<noteq> js ''phone''"
    by (simp_all add: js_def)
  have c: "classList (snd (validateField \<lparr>fname = js ''firstName'', fvalue = js ''Asha'',
       frequired = True, fdefault = [], fparent = 0\<rparr> blank_app)) 0 = [''success'']"
    using ne by (simp add: validateField_def classify_def Let_def t classList_remove_def
        classList_add_def blank_app_def)
  have b: "classList blank_app 0 = []"
    by (simp add: blank_app_def)
  from c b show ?thesis by auto
qed

text \<open>
  C6, amended: \<open>validateField\<close> changes nothing but the class list of the field's parent
  element. The field, every other class list, the notifications, the loader, the scheduled
  callbacks and the modal stay as they are. On the parent it removes \<^verbatim>\<open>error\<close> and
  \<^verbatim>\<open>success\<close> and, when the trimmed value is non-empty, adds \<^verbatim>\<open>success\<close> for a Valid and
  \<^verbatim>\<open>error\<close> for an Invalid field.
\<close>

theorem validateField_frame:
  "snd (validateField f s) = s\<lparr>classList := classList (snd (validateField f s))\<rparr>
   \<and> (\<forall>e. e \<noteq> fparent f \<longrightarrow> classList (snd (validateField f s)) e = classList s e)
   \<and> set (classList (snd (validateField f s)) (fparent f)) =
       (set (classList s (fparent f)) - {''error'', ''success''})
       \<union> (if trim (fvalue f) = [] then {}
          else if fst (validateField f s) then {''success''} else {''error''})"
  by (auto simp: validateField_def Let_def classList_remove_def classList_add_def)

text \<open>The theorem at the field of the counterexample: another element's class list and the
  form's controls are untouched.\<close>

theorem validateField_frame_witness:
  "classList (snd (validateField \<lparr>fname = js ''firstName'', fvalue = js ''Asha'',
       frequired = True, fdefault = [], fparent = 0\<rparr> blank_app)) 1 = classList blank_app 1
   \<and> formFields (snd (validateField \<lparr>fname = js ''firstName'', fvalue = js ''Asha'',
       frequired = True, fdefault = [], fparent = 0\<rparr> blank_app)) = []"
proof -
  let ?f = "\<lparr>fname = js ''firstName'', fvalue = js ''Asha'',
       frequired = True, fdefault = [], fparent = 0\<rparr>"
  let ?r = "snd (validateField ?f blank_app)"
  note fr = validateField_frame [of ?f blank_app]
  from fr have eq: "?r = blank_app\<lparr>classList := classList ?r\<rparr>"
    by (rule conjunct1)
  from fr have "\<forall>e. e \<noteq> fparent ?f \<longrightarrow> classList ?r e = classList blank_app e"
    by (rule conjunct2 [THEN conjunct1])
  then have a: "classList ?r 1 = classList blank_app 1"
    by simp
  have "formFields ?r = formFields (blank_app\<lparr>classList := classList ?r\<rparr>)"
    using eq by simp
  then have b: "formFields ?r = []"
    by (simp add: blank_app_def)
  from a b show ?thesis by simp
qed

section \<open>The submit attempt\<close>

lemma validateField_eq: "validateField f s = (classify f, snd (validateField f s))"
  by (simp add: validateField_def Let_def)

lemma validated_Cons: "validated (f # fs) s = validated fs (snd (validateField f s))"
  by (simp add: validated_def)

lemma forEach_required_eq:
  "forEach_required fs (v, es, s) =
     (v \<and> list_all classify fs, es @ map error_message (filter (\<lambda>f. \<not> classify f) fs), validated fs s)"
proof (induction fs arbitrary: v es s)
  case Nil
  then show ?case by (simp add: validated_def)
next
  case (Cons f fs)
  obtain s' where v: "validateField f s = (classify f, s')"
    using validateField_eq by blast
  then have s': "snd (validateField f s) = s'"
    by simp
  show ?case
    by (cases "classify f") (simp_all add: v Cons.IH validated_Cons s')
qed

lemma validateBusinessForm_eq:
  "validateBusinessForm s =
     (form_valid s, map error_message (invalid_required s), validated (filter frequired (formFields s)) s)"
  by (simp add: validateBusinessForm_def forEach_required_eq form_valid_def invalid_required_def)

lemma validateField_only_classList:
  "snd (validateField f s) = s\<lparr>classList := classList (snd (validateField f s))\<rparr>"
  by (simp add: validateField_def Let_def)

lemma validated_only_classList:
  "validated fs s = s\<lparr>classList := classList (validated fs s)\<rparr>"
proof (induction fs arbitrary: s)
  case Nil
  then show ?case by (simp add: validated_def)
next
  case (Cons f fs)
  have "validated (f # fs) s = validated fs (snd (validateField f s))"
    by (rule validated_Cons)
  also have "\<dots> = (snd (validateField f s))\<lparr>classList := classList (validated fs (snd (validateField f s)))\<rparr>"
    by (rule Cons.IH)
  also have "\<dots> = s\<lparr>classList := classList (validated fs (snd (validateField f s)))\<rparr>"
    by (subst validateField_only_classList) simp
  finally show ?case by (simp add: validated_Cons)
qed

lemma validated_frame:
  "formFields (validated fs s) = formFields s"
  "body (validated fs s) = body s"
  "timers (validated fs s) = timers s"
  "nextId (validated fs s) = nextId s"
  "formGroups (validated fs s) = formGroups s"
  "modal (validated fs s) = modal s"
  by (subst validated_only_classList, simp)+

lemma handleFormSubmit_valid:
  "form_valid s \<Longrightarrow>
     handleFormSubmit s = submitApplication (validated (filter frequired (formFields s)) s)"
  by (simp add: handleFormSubmit_def validateBusinessForm_eq)

lemma handleFormSubmit_invalid:
  "\<not> form_valid s \<Longrightarrow>
     handleFormSubmit s =
       snd (showNotification Error (js ''Application Incomplete'')
              (join (js '' '') (map error_message (invalid_required s))) 4000
              (validated (filter frequired (formFields s)) s))"
  by (simp add: handleFormSubmit_def validateBusinessForm_eq)

lemma form_valid_validated: "form_valid (validated fs s) = form_valid s"
  by (simp add: form_valid_def validated_frame)

lemma submitApplication_body:
  "body (submitApplication s) =
     body s @ [\<lparr>cid = nextId s, cnode = Loader (js ''Processing your application...''), cshow = False\<rparr>]"
  "timers (submitApplication s) =
     timers s @ [(NextFrame, AddShow (nextId s)), (Ms 2000, ResumeSubmit (nextId s))]"
  "nextId (submitApplication s) = Suc (nextId s)"
  "formFields (submitApplication s) = formFields s"
  "formGroups (submitApplication s) = formGroups s"
  "classList (submitApplication s) = classList s"
  by (simp_all add: submitApplication_def showLoader_def Let_def)

lemma form_valid_submitApplication: "form_valid (submitApplication s) = form_valid s"
  by (simp add: form_valid_def submitApplication_body)

lemma loaders_append: "loaders (s\<lparr>body := body s @ cs\<rparr>) = loaders s @ filter is_loader cs"
  by (simp add: loaders_def)

lemma submitApplication_loaders:
  "map cid (loaders (submitApplication s)) = map cid (loaders s) @ [nextId s]"
  by (simp add: loaders_def submitApplication_body is_loader_def)

lemma submitApplication_in_flight:
  "in_flight (submitApplication s) = in_flight s @ [nextId s]"
  by (simp add: in_flight_def submitApplication_body)

lemma validated_loaders: "loaders (validated fs s) = loaders s"
  by (simp add: loaders_def validated_frame)

lemma validated_in_flight: "in_flight (validated fs s) = in_flight s"
  by (simp add: in_flight_def validated_frame)

lemma handleFormSubmit_valid_effect:
  assumes "form_valid s"
  shows "map cid (loaders (handleFormSubmit s)) = map cid (loaders s) @ [nextId s]"
    and "in_flight (handleFormSubmit s) = in_flight s @ [nextId s]"
    and "form_valid (handleFormSubmit s)"
    and "nextId (handleFormSubmit s) = Suc (nextId s)"
    and "notifications (handleFormSubmit s) = notifications s"
  using assms
  by (simp_all add: handleFormSubmit_valid submitApplication_loaders submitApplication_in_flight
      validated_loaders validated_in_flight validated_frame form_valid_submitApplication
      form_valid_validated submitApplication_body notifications_def is_loader_def)

lemma form_valid_filled_form: "form_valid filled_form"
proof -
  have t: "trim (js ''Asha'') = js ''Asha''"
    by (simp add: trim_def js_def is_space_def)
  have ne: "js ''Asha'' \<noteq> []" "js ''a@b.c'' \<noteq> []" "js ''firstName'' \<noteq> js ''email''"
    "js ''firstName'' \<noteq> js ''phone''"
    by (simp_all add: js_def)
  show ?thesis
    using ne email_examples(1)
    by (simp add: form_valid_def filled_form_def blank_app_def classify_def t trim_examples)
qed

lemma filled_form_ids:
  "nextId filled_form = 20" "loaders filled_form = []" "in_flight filled_form = []"
  by (simp_all add: filled_form_def blank_app_def loaders_def in_flight_def)

lemma set_show_cids: "map cid (set_show n b cs) = map cid cs"
  by (induction cs) (simp_all add: set_show_def)

lemma set_show_loader_cids: "map cid (filter is_loader (set_show n b cs)) = map cid (filter is_loader cs)"
  by (induction cs) (simp_all add: set_show_def is_loader_def)

lemma set_show_loader_cid_set:
  "cid ` {x \<in> set (set_show n b cs). is_loader x} = cid ` {x \<in> set cs. is_loader x}"
  using arg_cong [OF set_show_loader_cids, of set n b cs] by simp

lemma clear_groups_frame:
  "body (clear_groups s) = body s" "timers (clear_groups s) = timers s"
  "formFields (clear_groups s) = formFields s" "formGroups (clear_groups s) = formGroups s"
  "nextId (clear_groups s) = nextId s"
  by (simp_all add: clear_groups_def)

lemma resumeSubmit_body:
  "body (resumeSubmit l t) =
     set_show l False (body t)
       @ [\<lparr>cid = nextId t,
            cnode = Notification Success (js ''Application Submitted Successfully!'')
                      (js ''Our recruitment team will contact you within 24 hours.''),
            cshow = False\<rparr>]"
  by (simp add: resumeSubmit_def clear_groups_frame form_reset_def showNotification_def
      hideLoader_def Let_def)

lemma resumeSubmit_timers:
  "timers (resumeSubmit l t) =
     timers t @ [(Ms 300, Detach l), (Ms 4000, AutoClose (nextId t)), (NextFrame, AddShow (nextId t))]"
  by (simp add: resumeSubmit_def clear_groups_frame form_reset_def showNotification_def
      hideLoader_def Let_def)



lemma fire_no_new_loader:
  "set (map cid (loaders (fire t s))) \<subseteq> set (map cid (loaders s))"
proof (cases t)
  case (AddShow n)
  then show ?thesis by (simp add: loaders_def set_show_loader_cids)
next
  case (AutoClose n)
  then show ?thesis by (simp add: loaders_def closeNotification_def set_show_loader_cid_set)
next
  case (Detach n)
  then show ?thesis by (auto simp: loaders_def)
next
  case (ResumeSubmit l)
  then show ?thesis
    by (simp add: loaders_def resumeSubmit_body set_show_loader_cids is_loader_def)
next
  case ActivateModal
  then show ?thesis by (simp add: loaders_def)
next
  case FocusFirstInput
  then show ?thesis by (simp add: loaders_def)
next
  case FinishClose
  then show ?thesis
    by (simp add: loaders_def finishClose_def Let_def clear_groups_frame split: option.splits)
qed

lemma fire_no_new_submission:
  "in_flight (fire t s) = in_flight s"
proof (cases t)
  case (AutoClose n)
  then show ?thesis by (simp add: in_flight_def closeNotification_def)
next
  case (ResumeSubmit l)
  then show ?thesis by (simp add: in_flight_def resumeSubmit_timers)
next
  case FinishClose
  then show ?thesis
    by (simp add: in_flight_def finishClose_def Let_def clear_groups_frame split: option.splits)
qed (simp_all add: in_flight_def)

lemma in_flight_remove:
  "set (concat (map (\<lambda>dt. resumes (snd dt)) (take i ts @ drop (Suc i) ts)))
     \<subseteq> set (concat (map (\<lambda>dt. resumes (snd dt)) ts))"
  using set_take_subset [of i ts] set_drop_subset [of "Suc i" ts] by auto

lemma step_no_new_loader:
  assumes "step s s'"
  shows "set (map cid (loaders s')) \<subseteq> set (map cid (loaders s)) \<and> set (in_flight s') \<subseteq> set (in_flight s)"
  using assms
proof cases
  case (run i)
  let ?s = "s\<lparr>timers := take i (timers s) @ drop (Suc i) (timers s)\<rparr>"
  have "loaders ?s = loaders s"
    by (simp add: loaders_def)
  moreover have "set (in_flight ?s) \<subseteq> set (in_flight s)"
    unfolding in_flight_def using in_flight_remove [of i "timers s"] by simp
  ultimately show ?thesis
    unfolding run run_timer_def
    using fire_no_new_loader [of "snd (timers s ! i)" ?s] fire_no_new_submission [of "snd (timers s ! i)" ?s]
    by simp
qed

lemma steps_no_new_loader:
  assumes "step\<^sup>*\<^sup>* s s'"
  shows "set (map cid (loaders s')) \<subseteq> set (map cid (loaders s)) \<and> set (in_flight s') \<subseteq> set (in_flight s)"
  using assms
proof (induction rule: rtranclp_induct)
  case base
  then show ?case by simp
next
  case (step y z)
  with step_no_new_loader [OF step.hyps(2)] show ?case by blast
qed

lemma handleFormSubmit_invalid_effect:
  assumes "\<not> form_valid s"
  shows "body (handleFormSubmit s) =
           body s @ [\<lparr>cid = nextId s,
                      cnode = Notification Error (js ''Application Incomplete'')
                                (join (js '' '') (map error_message (invalid_required s))),
                      cshow = False\<rparr>]"
    and "timers (handleFormSubmit s) =
           timers s @ [(Ms 4000, AutoClose (nextId s)), (NextFrame, AddShow (nextId s))]"
    and "loaders (handleFormSubmit s) = loaders s"
    and "in_flight (handleFormSubmit s) = in_flight s"
    and "formFields (handleFormSubmit s) = formFields s"
  using assms
  by (simp_all add: handleFormSubmit_invalid showNotification_def Let_def validated_frame
      loaders_def in_flight_def is_loader_def)

lemma failed_submit_never_loads:
  assumes "\<not> form_valid s" and "step\<^sup>*\<^sup>* (handleFormSubmit s) s'"
  shows "set (map cid (loaders s')) \<subseteq> set (map cid (loaders s))"
    and "set (in_flight s') \<subseteq> set (in_flight s)"
  using steps_no_new_loader [OF assms(2)] handleFormSubmit_invalid_effect(3,4) [OF assms(1)]
  by simp_all

lemma error_message_registered:
  "map_of displayNames (fname f) = Some d \<Longrightarrow> d \<noteq> [] \<Longrightarrow>
     error_message f = d @ js '' is required or invalid.''"
  by (simp add: error_message_def getFieldDisplayName_def property_get_def)

lemma error_message_fallback:
  "map_of displayNames (fname f) = None \<Longrightarrow> map_of object_prototype (fname f) = None \<Longrightarrow>
     error_message f = fname f @ js '' is required or invalid.''"
  by (simp add: error_message_def getFieldDisplayName_def property_get_def)

section \<open>Claims about the submit attempt\<close>

text \<open>
  C3: for a form with an Invalid required field the submit attempt does what the claim
  says (\<open>handleFormSubmit_invalid_effect\<close>, \<open>failed_submit_never_loads\<close>): one Error
  notification at once, no loader and no submission then or in any later step, and for the
  form with a blank e-mail field the message of the specification's scenario.
\<close>

lemma blank_email_form_message:
  "map cnode (body (handleFormSubmit blank_email_form)) =
     [Notification Error (js ''Application Incomplete'')
        (js ''Email Address is required or invalid. city is required or invalid.'')]"
proof -
  have c: "\<not> classify \<lparr>fname = js ''email'', fvalue = [], frequired = True, fdefault = [], fparent = 11\<rparr>"
    "\<not> classify \<lparr>fname = js ''city'', fvalue = [], frequired = True, fdefault = [], fparent = 12\<rparr>"
    by (simp_all add: classify_def trim_Nil)
  then have nv: "\<not> form_valid blank_email_form"
    by (simp add: form_valid_def blank_email_form_def blank_app_def)
  have inv: "invalid_required blank_email_form = formFields blank_email_form"
    using c by (simp add: invalid_required_def blank_email_form_def blank_app_def)
  have m1: "error_message \<lparr>fname = js ''email'', fvalue = [], frequired = True, fdefault = [], fparent = 11\<rparr>
              = js ''Email Address is required or invalid.''"
    by code_simp
  have m2: "error_message \<lparr>fname = js ''city'', fvalue = [], frequired = True, fdefault = [], fparent = 12\<rparr>
              = js ''city is required or invalid.''"
    by code_simp
  show ?thesis
    unfolding handleFormSubmit_invalid_effect(1) [OF nv] inv
    by (simp add: blank_email_form_def blank_app_def m1 m2) code_simp
qed

text \<open>
  C3, the failing input: a form whose required, empty control is named \<^verbatim>\<open>constructor\<close>. No
  display name is registered for it, so the claim asks for the message
  \<^verbatim>\<open>constructor is required or invalid.\<close>; the lookup finds the inherited
  \<^verbatim>\<open>Object.prototype.constructor\<close> instead and the message starts with that function's
  source text.
\<close>

theorem inherited_name_message:
  "map cnode (body (handleFormSubmit constructor_form)) =
     [Notification Error (js ''Application Incomplete'')
        (js ''function Object() { [native code] } is required or invalid.'')]
   \<and> js ''function Object() { [native code] } is required or invalid.''
       \<noteq> js ''constructor is required or invalid.''"
proof -
  have c: "\<not> classify \<lparr>fname = js ''constructor'', fvalue = [], frequired = True, fdefault = [], fparent = 11\<rparr>"
    by (simp add: classify_def trim_Nil)
  then have nv: "\<not> form_valid constructor_form"
    by (simp add: form_valid_def constructor_form_def blank_app_def)
  have inv: "invalid_required constructor_form = formFields constructor_form"
    using c by (simp add: invalid_required_def constructor_form_def blank_app_def)
  have m: "error_message \<lparr>fname = js ''constructor'', fvalue = [], frequired = True, fdefault = [], fparent = 11\<rparr>
              = js ''function Object() { [native code] } is required or invalid.''"
    by code_simp
  have "map cnode (body (handleFormSubmit constructor_form)) =
     [Notification Error (js ''Application Incomplete'')
        (js ''function Object() { [native code] } is required or invalid.'')]"
    unfolding handleFormSubmit_invalid_effect(1) [OF nv] inv
    by (simp add: constructor_form_def blank_app_def m)
  moreover have "js ''function Object() { [native code] } is required or invalid.''
       \<noteq> js ''constructor is required or invalid.''"
    by code_simp
  ultimately show ?thesis
    by simp
qed

text \<open>
  C5, as stated, says that a submit attempt during a submission in flight is rejected.
  Neither \<open>handleFormSubmit\<close> nor \<open>submitApplication\<close> reads a submission state: on the filled
  form a second attempt right after the first leaves two loaders in the document and two
  submissions in flight.
\<close>

theorem second_submit_starts_second_submission:
  "form_valid filled_form
   \<and> in_flight (handleFormSubmit filled_form) = [20]
   \<and> map cid (loaders (handleFormSubmit filled_form)) = [20]
   \<and> in_flight (handleFormSubmit (handleFormSubmit filled_form)) = [20, 21]
   \<and> map cid (loaders (handleFormSubmit (handleFormSubmit filled_form))) = [20, 21]"
proof -
  note one = handleFormSubmit_valid_effect [OF form_valid_filled_form]
  note two = handleFormSubmit_valid_effect [OF one(3)]
  show ?thesis
    using form_valid_filled_form one(1,2,4) two(1,2)
    by (simp add: filled_form_ids)
qed

text \<open>
  C5, amended: a submit attempt made while a submission is in flight is handled like any
  other. When all required fields are Valid it appends one more loader, schedules one more
  continuation after 2000 ms, so that one more submission is in flight, and leaves the form
  valid for the next attempt.
\<close>

theorem submit_while_submitting:
  assumes "form_valid s" and "in_flight s \<noteq> []"
  shows "map cid (loaders (handleFormSubmit s)) = map cid (loaders s) @ [nextId s]
         \<and> in_flight (handleFormSubmit s) = in_flight s @ [nextId s]
         \<and> (Ms 2000, ResumeSubmit (nextId s)) \<in> set (timers (handleFormSubmit s))
         \<and> form_valid (handleFormSubmit s)"
proof -
  have "timers (handleFormSubmit s) =
          timers s @ [(NextFrame, AddShow (nextId s)), (Ms 2000, ResumeSubmit (nextId s))]"
    using assms(1) by (simp add: handleFormSubmit_valid submitApplication_body validated_frame)
  then show ?thesis
    using handleFormSubmit_valid_effect [OF assms(1)] by simp
qed

text \<open>The theorem at the filled form after its first submit attempt.\<close>

theorem submit_while_submitting_witness:
  "in_flight (handleFormSubmit filled_form) \<noteq> []
   \<and> in_flight (handleFormSubmit (handleFormSubmit filled_form)) = [20, 21]
   \<and> map cid (loaders (handleFormSubmit (handleFormSubmit filled_form))) = [20, 21]"
proof -
  note one = handleFormSubmit_valid_effect [OF form_valid_filled_form]
  have busy: "in_flight (handleFormSubmit filled_form) \<noteq> []"
    using one(2) by simp
  show ?thesis
    using submit_while_submitting [OF one(3) busy] one(1,2,4) busy
    by (simp add: filled_form_ids)
qed










section \<open>Claims about missing elements\<close>

text \<open>
  C9: \<open>openModal\<close>, \<open>closeModal\<close> and the overlay listener do nothing when the document has no
  \<^verbatim>\<open>#applicationModal\<close>, as the claim says.
\<close>

lemma modal_absent_siblings:
  "openModal (s\<lparr>modal := None\<rparr>) = s\<lparr>modal := None\<rparr>"
  "closeModal (s\<lparr>modal := None\<rparr>) = s\<lparr>modal := None\<rparr>"
  "overlay_click b (s\<lparr>modal := None\<rparr>) = s\<lparr>modal := None\<rparr>"
  "key \<noteq> js ''Escape'' \<Longrightarrow> keydown key (s\<lparr>modal := None\<rparr>) = Inr (s\<lparr>modal := None\<rparr>)"
  by (simp_all add: openModal_def closeModal_def overlay_click_def keydown_def)

text \<open>
  C9, the failing input: the \<^verbatim>\<open>keydown\<close> listener with the key \<^verbatim>\<open>Escape\<close> on a document with
  no \<^verbatim>\<open>#applicationModal\<close>. It reads \<^verbatim>\<open>.style\<close> of \<^verbatim>\<open>null\<close> and raises a TypeError.
\<close>

theorem keydown_escape_without_modal:
  "keydown (js ''Escape'') (s\<lparr>modal := None\<rparr>) = Inl TypeError"
  by (simp add: keydown_def)

section \<open>Rewriting the tagged content\<close>




























section \<open>Claims about the language manager\<close>






end
